theory Spec2Isabelle
  imports Complex_Main
begin

section \<open>The in-memory cache of src/index.ts\<close>

text \<open>
  The cache is a JavaScript \<^verbatim>\<open>Map<string, CacheEntry>\<close>. A JavaScript Map keeps its
  keys unique and iterates in insertion order, so it is modelled as an association list:
  \<open>set\<close> on an existing key replaces the value in place, \<open>set\<close> on a new key appends,
  \<open>delete\<close> drops the key, \<open>clear\<close> empties the list and \<open>size\<close> is its length.
  Times are the integer milliseconds that \<open>Date.now()\<close> returns; every reading of the
  clock is an explicit argument, because the clock is read again at every call.
\<close>

record CacheEntry =
  data :: string
  timestamp :: int
  date :: string

type_synonym cache = "(string \<times> CacheEntry) list"

definition CACHE_TTL_MS :: int where
  "CACHE_TTL_MS = 60 * 60 * 1000"

definition Map_get :: "('k \<times> 'v) list \<Rightarrow> 'k \<Rightarrow> 'v option" where
  "Map_get c k = map_of c k"

fun Map_set :: "('k \<times> 'v) list \<Rightarrow> 'k \<Rightarrow> 'v \<Rightarrow> ('k \<times> 'v) list" where
  "Map_set [] k v = [(k, v)]"
| "Map_set ((k', v') # c) k v = (if k' = k then (k, v) # c else (k', v') # Map_set c k v)"

definition Map_delete :: "('k \<times> 'v) list \<Rightarrow> 'k \<Rightarrow> ('k \<times> 'v) list" where
  "Map_delete c k = filter (\<lambda>p. fst p \<noteq> k) c"

definition Map_clear :: "('k \<times> 'v) list \<Rightarrow> ('k \<times> 'v) list" where
  "Map_clear c = []"

definition Map_size :: "('k \<times> 'v) list \<Rightarrow> nat" where
  "Map_size c = length c"

definition Map_entries :: "('k \<times> 'v) list \<Rightarrow> ('k \<times> 'v) list" where
  "Map_entries c = c"

text \<open>
  \<open>getCachedReading\<close>: the first argument is the value \<open>Date.now()\<close> returns inside the
  function. The result is the returned entry (\<open>None\<close> for \<open>null\<close>) and the cache after
  the call.
\<close>

definition getCachedReading :: "int \<Rightarrow> string \<Rightarrow> cache \<Rightarrow> CacheEntry option \<times> cache" where
  "getCachedReading now d c =
     (let key = d in
      case Map_get c key of
        None \<Rightarrow> (None, c)
      | Some entry \<Rightarrow>
          if now - timestamp entry > CACHE_TTL_MS then (None, Map_delete c key)
          else (Some entry, c))"

definition setCachedReading :: "int \<Rightarrow> string \<Rightarrow> string \<Rightarrow> cache \<Rightarrow> cache" where
  "setCachedReading now d dat c =
     (let key = d in Map_set c key \<lparr>data = dat, timestamp = now, date = d\<rparr>)"

section \<open>Numbers and dates of the JavaScript runtime\<close>

text \<open>
  \<open>Number_toString\<close> is the decimal text JavaScript gives an integer-valued number
  (string concatenation and template literals use it). \<open>Math_round\<close> rounds to the
  nearest integer, a tie going up, as \<open>Math.round\<close> does; the quotient is taken exactly
  (a rational), which is what the double division gives for the differences of two clock
  readings.
\<close>

definition digit_char :: "nat \<Rightarrow> char" where
  "digit_char n = ''0123456789'' ! (n mod 10)"

fun show_nat :: "nat \<Rightarrow> string" where
  "show_nat n = (if n < 10 then [digit_char n] else show_nat (n div 10) @ [digit_char n])"

declare show_nat.simps [simp del]

definition Number_toString :: "int \<Rightarrow> string" where
  "Number_toString i = (if i < 0 then ''-'' @ show_nat (nat (- i)) else show_nat (nat i))"

definition Math_round :: "rat \<Rightarrow> int" where
  "Math_round x = \<lfloor>x + 1 / 2\<rfloor>"

definition padStart :: "nat \<Rightarrow> string \<Rightarrow> string" where
  "padStart n s = replicate (n - length s) (CHR ''0'') @ s"

text \<open>
  \<open>Date.prototype.toISOString\<close> on a time value \<open>t\<close> (milliseconds since the epoch, UTC):
  the civil date of day number \<open>t div 86400000\<close> in the proleptic Gregorian calendar, the
  year written with four digits when it lies in 0..9999 and with a sign and six digits
  otherwise. Days are counted from 1 March of year 0 in eras of 400 years (146097 days);
  \<open>year_of_era\<close> splits the day of the era into centuries (36524 days, the fourth one day
  longer), four-year cycles (1461 days) and years (365 days, the fourth one day longer) and
  gives the year of the era and the day of that year, years running from March;
  \<open>month_day\<close> gives the month (1..12) and the day of the month from the day of the year.
\<close>

definition year_of_era :: "int \<Rightarrow> int \<times> int" where
  "year_of_era doe =
     (let c = min 3 (doe div 36524);
          r1 = doe - 36524 * c;
          q = r1 div 1461;
          r2 = r1 mod 1461;
          yy = min 3 (r2 div 365)
      in (100 * c + 4 * q + yy, r2 - 365 * yy))"

definition month_day :: "int \<Rightarrow> int \<times> int" where
  "month_day doy =
     (let mp = (5 * doy + 2) div 153
      in (if mp < 10 then mp + 3 else mp - 9, doy - (153 * mp + 2) div 5 + 1))"

definition civil_from_days :: "int \<Rightarrow> int \<times> int \<times> int" where
  "civil_from_days z0 =
     (let z = z0 + 719468;
          era = z div 146097;
          doe = z mod 146097
      in case year_of_era doe of
           (yoe, doy) \<Rightarrow>
             (case month_day doy of
                (m, d) \<Rightarrow> (yoe + era * 400 + (if m \<le> 2 then 1 else 0), m, d)))"

definition year_string :: "int \<Rightarrow> string" where
  "year_string y =
     (if 0 \<le> y \<and> y \<le> 9999 then padStart 4 (show_nat (nat y))
      else (if y < 0 then ''-'' else ''+'') @ padStart 6 (show_nat (nat \<bar>y\<bar>)))"

definition date_string :: "int \<Rightarrow> string" where
  "date_string t =
     (case civil_from_days (t div 86400000) of
        (y, m, d) \<Rightarrow>
          year_string y @ ''-'' @ padStart 2 (show_nat (nat m)) @ ''-''
            @ padStart 2 (show_nat (nat d)))"

definition time_string :: "int \<Rightarrow> string" where
  "time_string t =
     padStart 2 (show_nat (nat ((t div 3600000) mod 24))) @ '':''
       @ padStart 2 (show_nat (nat ((t div 60000) mod 60))) @ '':''
       @ padStart 2 (show_nat (nat ((t div 1000) mod 60))) @ ''.''
       @ padStart 3 (show_nat (nat (t mod 1000)))"

definition Date_toISOString :: "int \<Rightarrow> string" where
  "Date_toISOString t = date_string t @ ''T'' @ time_string t @ ''Z''"

text \<open>\<open>s.split("T")[0]\<close>: the text before the first \<open>T\<close>, all of \<open>s\<close> when it has none.\<close>

definition split_T_first :: "string \<Rightarrow> string" where
  "split_T_first s = takeWhile (\<lambda>ch. ch \<noteq> CHR ''T'') s"

text \<open>The form \<open>YYYY-MM-DD\<close>: ten characters, digits but for the two hyphens.\<close>

definition is_digit :: "char \<Rightarrow> bool" where
  "is_digit ch = (ch \<in> set ''0123456789'')"

definition is_YYYY_MM_DD :: "string \<Rightarrow> bool" where
  "is_YYYY_MM_DD s =
     (length s = 10 \<and> list_all is_digit (take 4 s) \<and> s ! 4 = CHR ''-'' \<and>
      list_all is_digit (take 2 (drop 5 s)) \<and> s ! 7 = CHR ''-'' \<and>
      list_all is_digit (drop 8 s))"

text \<open>\<open>getTodayDate\<close>; the argument is the time value of \<open>new Date()\<close>.\<close>

definition getTodayDate :: "int \<Rightarrow> string" where
  "getTodayDate t = split_T_first (Date_toISOString t)"

section \<open>The upstream fetch\<close>

text \<open>
  An outbound URL is its origin and path together with its query parameters in order.
  What \<open>fetch\<close> settles to is a parameter of the model: either a complete response
  (status, status text, body text) or a failure of the transport, which rejects the
  promise with an \<open>Error\<close> carrying a message or with some other value.
  \<open>response.ok\<close> is true for the statuses 200..299.
\<close>

type_synonym url = "string \<times> (string \<times> string) list"

record FetchResponse =
  res_status :: nat
  res_statusText :: string
  res_text :: string

datatype thrown =
    UpstreamError nat string
  | TransportError string
  | NonError

datatype fetch_outcome =
    Responded FetchResponse
  | FailedError string
  | FailedNonError

definition res_ok :: "FetchResponse \<Rightarrow> bool" where
  "res_ok r = (200 \<le> res_status r \<and> res_status r \<le> 299)"

text \<open>
  \<open>UpstreamError st txt\<close> is the \<open>Error\<close> object that \<open>fetchReading\<close> constructs and
  throws; \<open>TransportError msg\<close> is an \<open>Error\<close> raised by the transport; \<open>NonError\<close> is a
  thrown value that is not an instance of \<open>Error\<close>. \<open>error_message\<close> is the text the
  request boundary reports for each.
\<close>

definition upstream_message :: "nat \<Rightarrow> string \<Rightarrow> string" where
  "upstream_message st txt =
     ''NLT API error: '' @ Number_toString (int st) @ '' '' @ txt"

fun error_message :: "thrown \<Rightarrow> string" where
  "error_message (UpstreamError st txt) = upstream_message st txt"
| "error_message (TransportError msg) = msg"
| "error_message NonError = ''Unknown error''"

record env =
  API_KEY :: string
  upstream :: "url \<Rightarrow> fetch_outcome"

text \<open>
  \<open>fetchReading\<close> returns the list of outbound requests it made and either the thrown
  value or the body text.
\<close>

definition reading_url :: "env \<Rightarrow> string \<Rightarrow> url" where
  "reading_url e d =
     (''https://api.nlt.to/api/reading'',
      Map_set (Map_set (Map_set [] ''plan'' ''oycb'') ''date'' d) ''key'' (API_KEY e))"

definition fetchReading :: "env \<Rightarrow> string \<Rightarrow> url list \<times> (thrown + string)" where
  "fetchReading e d =
     (let u = reading_url e d in
      ([u],
       case upstream e u of
         FailedError msg \<Rightarrow> Inl (TransportError msg)
       | FailedNonError \<Rightarrow> Inl NonError
       | Responded response \<Rightarrow>
           if \<not> res_ok response
           then Inl (UpstreamError (res_status response) (res_statusText response))
           else Inr (res_text response)))"

section \<open>The request handler\<close>

record Request =
  req_method :: string
  pathname :: string
  searchParams :: "(string \<times> string) list"

record StatsEntry =
  entry_key :: string
  entry_date :: string
  entry_age :: string

datatype body =
    Null
  | Text string
  | HealthJson string nat
  | ErrorJson string
  | StatsJson nat int "StatsEntry list"
  | MessageJson string

record Response =
  status :: nat
  headers :: "(string \<times> string) list"
  body :: body

text \<open>
  The readings of the clock during one request: \<open>today_ms\<close> is \<open>new Date()\<close> in
  \<open>getTodayDate\<close>, \<open>get_ms\<close> is \<open>Date.now()\<close> in \<open>getCachedReading\<close>, \<open>set_ms\<close> is
  \<open>Date.now()\<close> in \<open>setCachedReading\<close>, and \<open>stats_ms i\<close> is \<open>Date.now()\<close> in the
  callback for the \<open>i\<close>-th entry of the stats listing.
\<close>

record clock =
  today_ms :: int
  get_ms :: int
  set_ms :: int
  stats_ms :: "nat \<Rightarrow> int"

definition corsHeaders :: "(string \<times> string) list" where
  "corsHeaders =
     [(''Access-Control-Allow-Origin'', ''*''),
      (''Access-Control-Allow-Methods'', ''GET, POST, PUT, DELETE, OPTIONS''),
      (''Access-Control-Allow-Headers'', ''*'')]"

definition addCorsHeaders :: "(string \<times> string) list \<Rightarrow> (string \<times> string) list" where
  "addCorsHeaders hs = fold (\<lambda>(k, v) acc. Map_set acc k v) hs corsHeaders"

text \<open>The date of a reading request: \<open>url.searchParams.get("date") || getTodayDate()\<close>.\<close>

definition request_date :: "clock \<Rightarrow> Request \<Rightarrow> string" where
  "request_date clk req =
     (case Map_get (searchParams req) ''date'' of
        None \<Rightarrow> getTodayDate (today_ms clk)
      | Some s \<Rightarrow> if s = [] then getTodayDate (today_ms clk) else s)"

definition reading_handler ::
  "env \<Rightarrow> clock \<Rightarrow> string \<Rightarrow> (string \<times> CacheEntry) list
     \<Rightarrow> Response \<times> (string \<times> CacheEntry) list \<times> url list" where
  "reading_handler e clk d c =
     (case getCachedReading (get_ms clk) d c of
        (Some cached, c1) \<Rightarrow>
          (\<lparr>status = 200,
            headers = addCorsHeaders
              [(''Content-Type'', ''text/html; charset=utf-8''),
               (''X-Cache'', ''HIT''),
               (''X-Cache-Date'', date cached)],
            body = Text (data cached)\<rparr>, c1, [])
      | (None, c1) \<Rightarrow>
          (case fetchReading e d of
             (calls, Inr reading) \<Rightarrow>
               (\<lparr>status = 200,
                 headers = addCorsHeaders
                   [(''Content-Type'', ''text/html; charset=utf-8''),
                    (''X-Cache'', ''MISS''),
                    (''X-Cache-Date'', d)],
                 body = Text reading\<rparr>,
                setCachedReading (set_ms clk) d reading c1, calls)
           | (calls, Inl err) \<Rightarrow>
               (\<lparr>status = 500, headers = addCorsHeaders [],
                 body = ErrorJson (error_message err)\<rparr>, c1, calls)))"

definition age_string :: "int \<Rightarrow> int \<Rightarrow> string" where
  "age_string now ts = Number_toString (Math_round (of_int (now - ts) / 1000)) @ ''s''"

definition stats_entries :: "clock \<Rightarrow> (string \<times> CacheEntry) list \<Rightarrow> StatsEntry list" where
  "stats_entries clk c =
     map (\<lambda>(i, (key, entry)).
            \<lparr>entry_key = key, entry_date = date entry,
             entry_age = age_string (stats_ms clk i) (timestamp entry)\<rparr>)
         (enumerate 0 (Map_entries c))"

text \<open>
  The \<open>fetch\<close> callback given to \<open>serve\<close>: the response, the cache after the request and
  the outbound requests made. One request runs to completion before the next.
\<close>

definition serve_fetch ::
  "env \<Rightarrow> clock \<Rightarrow> Request \<Rightarrow> (string \<times> CacheEntry) list
     \<Rightarrow> Response \<times> (string \<times> CacheEntry) list \<times> url list" where
  "serve_fetch e clk req c =
     (if req_method req = ''OPTIONS''
      then (\<lparr>status = 204, headers = corsHeaders, body = Null\<rparr>, c, [])
      else if pathname req = ''/health''
      then (\<lparr>status = 200, headers = addCorsHeaders [],
             body = HealthJson ''ok'' (Map_size c)\<rparr>, c, [])
      else if pathname req = ''/reading''
      then reading_handler e clk (request_date clk req) c
      else if pathname req = ''/cache/stats''
      then (\<lparr>status = 200, headers = addCorsHeaders [],
             body = StatsJson (Map_size c) CACHE_TTL_MS (stats_entries clk c)\<rparr>, c, [])
      else if pathname req = ''/cache/clear'' \<and> req_method req = ''POST''
      then (\<lparr>status = 200, headers = addCorsHeaders [],
             body = MessageJson ''Cache cleared''\<rparr>, Map_clear c, [])
      else (\<lparr>status = 404, headers = addCorsHeaders [],
             body = ErrorJson ''Not found''\<rparr>, c, []))"

section \<open>Concrete environments for the examples\<close>

definition upstream_always :: "fetch_outcome \<Rightarrow> url \<Rightarrow> fetch_outcome" where
  "upstream_always r u = r"

definition clock_at :: "int \<Rightarrow> clock" where
  "clock_at t = \<lparr>today_ms = t, get_ms = t, set_ms = t, stats_ms = (\<lambda>i. t)\<rparr>"

definition example_env :: "fetch_outcome \<Rightarrow> env" where
  "example_env r = \<lparr>API_KEY = ''secret'', upstream = upstream_always r\<rparr>"

definition example_request :: "string \<Rightarrow> string \<Rightarrow> (string \<times> string) list \<Rightarrow> Request" where
  "example_request m p q = \<lparr>req_method = m, pathname = p, searchParams = q\<rparr>"

definition example_cache :: "(string \<times> CacheEntry) list" where
  "example_cache =
     [(''2025-06-15'', \<lparr>data = ''old'', timestamp = 0, date = ''2025-06-15''\<rparr>)]"

section \<open>Facts about the Map operations\<close>

lemma Map_get_set: "Map_get (Map_set c k v) k' = (if k' = k then Some v else Map_get c k')"
  by (induction c) (auto simp: Map_get_def)

lemma Map_get_delete: "Map_get (Map_delete c k) k' = (if k' = k then None else Map_get c k')"
  by (induction c) (auto simp: Map_get_def Map_delete_def)

lemma Map_keys_set:
  "set (map fst (Map_set c k v)) = insert k (set (map fst c))"
proof (induction c)
  case Nil
  show ?case by simp
next
  case (Cons p c)
  obtain k' v' where p: "p = (k', v')" by (cases p)
  show ?case using Cons.IH unfolding p by (cases "k' = k") auto
qed

lemma Map_distinct_set:
  "distinct (map fst c) \<Longrightarrow> distinct (map fst (Map_set c k v))"
proof (induction c)
  case Nil
  show ?case by simp
next
  case (Cons p c)
  obtain k' v' where p: "p = (k', v')" by (cases p)
  show ?case
  proof (cases "k' = k")
    case True
    with Cons.prems show ?thesis unfolding p by simp
  next
    case False
    have "k' \<notin> set (map fst (Map_set c k v))"
      using Cons.prems False unfolding p Map_keys_set by auto
    with Cons False show ?thesis unfolding p by simp
  qed
qed

lemma Map_distinct_delete:
  "distinct (map fst c) \<Longrightarrow> distinct (map fst (Map_delete c k))"
  by (simp add: Map_delete_def distinct_map_filter)

lemma Map_delete_absent: "Map_get c k = None \<Longrightarrow> Map_delete c k = c"
  by (induction c) (auto simp: Map_get_def Map_delete_def split: if_splits)

lemma Map_set_twice: "Map_set (Map_set c k a) k b = Map_set c k b"
  by (induction c) auto

lemma Math_round_of_int_div_1000: "Math_round (of_int d / 1000) = (d + 500) div 1000"
proof -
  have "(of_int d :: rat) / 1000 + 1 / 2 = of_int (d + 500) / of_int 1000"
    by (simp add: field_simps)
  then show ?thesis
    unfolding Math_round_def by (simp only: floor_divide_of_int_eq)
qed

lemma Math_round_nearest:
  "1000 * Math_round (of_int d / 1000) - 500 \<le> d \<and>
   d < 1000 * Math_round (of_int d / 1000) + 500"
proof -
  let ?q = "(d + 500) div 1000" and ?m = "(d + 500) mod 1000"
  have "1000 * ?q + ?m = d + 500" by simp
  moreover have "0 \<le> ?m" and "?m < 1000" by simp_all
  ultimately show ?thesis unfolding Math_round_of_int_div_1000 by linarith
qed

lemma stats_entries_nth:
  "i < length c \<Longrightarrow> stats_entries clk c ! i =
     \<lparr>entry_key = fst (c ! i), entry_date = date (snd (c ! i)),
      entry_age = age_string (stats_ms clk i) (timestamp (snd (c ! i)))\<rparr>"
  by (simp add: stats_entries_def Map_entries_def nth_enumerate_eq split: prod.splits)

lemma Map_size_card: "distinct (map fst c) \<Longrightarrow> Map_size c = card (dom (Map_get c))"
proof -
  assume d: "distinct (map fst c)"
  have "Map_get c = map_of c"
    by (rule ext) (simp add: Map_get_def)
  then have "dom (Map_get c) = set (map fst c)"
    by (simp add: dom_map_of_conv_image_fst)
  moreover have "card (set (map fst c)) = length (map fst c)"
    using d by (rule distinct_card)
  ultimately show ?thesis by (simp add: Map_size_def)
qed

lemma show_nat_7200: "show_nat 7200 = ''7200''"
  by (simp add: show_nat.simps digit_char_def)

lemma age_example: "age_string 7200499 0 = ''7200s''"
proof -
  have "Math_round (of_int (7200499 - 0) / 1000) = 7200"
    unfolding Math_round_of_int_div_1000 by simp
  then show ?thesis
    unfolding age_string_def by (simp add: Number_toString_def show_nat_7200)
qed

section \<open>Facts about dates and decimal strings\<close>

lemma month_day_bounds:
  assumes "0 \<le> doy" "doy \<le> 365" "month_day doy = (m, d)"
  shows "1 \<le> m \<and> m \<le> 12 \<and> 1 \<le> d \<and> d \<le> 31 \<and> (doy \<le> 305 \<longrightarrow> 3 \<le> m) \<and>
         (306 \<le> doy \<longrightarrow> m \<le> 2)"
proof -
  define mp where "mp = (5 * doy + 2) div 153"
  have a: "153 * mp + (5 * doy + 2) mod 153 = 5 * doy + 2"
    unfolding mp_def by simp
  have b: "0 \<le> (5 * doy + 2) mod 153" "(5 * doy + 2) mod 153 < 153"
    by simp_all
  have c: "5 * ((153 * mp + 2) div 5) + (153 * mp + 2) mod 5 = 153 * mp + 2"
    by simp
  have e: "0 \<le> (153 * mp + 2) mod 5" "(153 * mp + 2) mod 5 < 5"
    by simp_all
  have m: "m = (if mp < 10 then mp + 3 else mp - 9)"
    and d: "d = doy - (153 * mp + 2) div 5 + 1"
    using assms(3) unfolding month_day_def Let_def mp_def by simp_all
  have mp: "0 \<le> mp \<and> mp \<le> 11 \<and> (doy \<le> 305 \<longrightarrow> mp \<le> 9) \<and> (306 \<le> doy \<longrightarrow> 10 \<le> mp)"
    using assms(1,2) a b by linarith
  have dd: "1 \<le> d \<and> d \<le> 31"
    unfolding d using assms(1,2) a b c e by linarith
  from mp dd show ?thesis unfolding m by auto
qed

lemma year_of_era_bounds:
  assumes "0 \<le> doe" "doe \<le> 146096" "year_of_era doe = (yoe, doy)"
  shows "0 \<le> yoe \<and> yoe \<le> 399 \<and> 0 \<le> doy \<and> doy \<le> 365 \<and>
         (146037 \<le> doe \<longrightarrow> yoe = 399 \<and> 306 \<le> doy) \<and>
         (doe \<le> 146036 \<and> yoe = 399 \<longrightarrow> doy \<le> 305)"
proof -
  define c where "c = min 3 (doe div 36524)"
  define r1 where "r1 = doe - 36524 * c"
  define q where "q = r1 div 1461"
  define r2 where "r2 = r1 mod 1461"
  define yy where "yy = min 3 (r2 div 365)"
  have yoe: "yoe = 100 * c + 4 * q + yy" and doy: "doy = r2 - 365 * yy"
    using assms(3) unfolding year_of_era_def Let_def c_def r1_def q_def r2_def yy_def
    by simp_all
  have a: "36524 * (doe div 36524) + doe mod 36524 = doe" by simp
  have b: "0 \<le> doe mod 36524" "doe mod 36524 < 36524" by simp_all
  have c03: "0 \<le> c \<and> c \<le> 3 \<and> 0 \<le> r1 \<and> r1 \<le> 36524 \<and> (c \<le> 2 \<longrightarrow> r1 \<le> 36523)"
    unfolding c_def r1_def min_def using assms(1,2) a b by (auto; linarith)
  have f: "1461 * q + r2 = r1" unfolding q_def r2_def by simp
  have g: "0 \<le> r2" "r2 < 1461" unfolding r2_def by simp_all
  have q024: "0 \<le> q \<and> q \<le> 24" using c03 f g by linarith
  have h: "365 * (r2 div 365) + r2 mod 365 = r2" by simp
  have i: "0 \<le> r2 mod 365" "r2 mod 365 < 365" by simp_all
  have y03: "0 \<le> yy \<and> yy \<le> 3 \<and> 0 \<le> doy \<and> doy \<le> 365 \<and> (yy \<le> 2 \<longrightarrow> doy \<le> 364)"
    unfolding yy_def doy min_def using g h i by (auto; linarith)
  have sum: "doe = 36524 * c + 1461 * q + 365 * yy + doy"
    unfolding doy using f r1_def by linarith
  have r1_le: "c \<le> 2 \<Longrightarrow> r1 \<le> 36523" and doy_le: "yy \<le> 2 \<Longrightarrow> doy \<le> 364"
    using c03 y03 by simp_all
  have c0: "0 \<le> c" "c \<le> 3" "0 \<le> r1" "r1 \<le> 36524" using c03 by simp_all
  have q0: "0 \<le> q" "q \<le> 24" using q024 by simp_all
  have y0: "0 \<le> yy" "yy \<le> 3" "0 \<le> doy" "doy \<le> 365" using y03 by simp_all
  have doe_r1: "doe = 36524 * c + r1" unfolding r1_def by simp
  have top: "146037 \<le> doe \<longrightarrow> yoe = 399 \<and> 306 \<le> doy"
  proof
    assume big: "146037 \<le> doe"
    have c3: "c = 3"
    proof (rule ccontr)
      assume "c \<noteq> 3"
      then have "c \<le> 2" using c0 by linarith
      from r1_le [OF this] this big doe_r1 show False by linarith
    qed
    have q24: "q = 24"
    proof (rule ccontr)
      assume "q \<noteq> 24"
      then have "q \<le> 23" using q0 by linarith
      with big doe_r1 c3 f g show False by linarith
    qed
    have y3: "yy = 3"
    proof (rule ccontr)
      assume "yy \<noteq> 3"
      then have "yy \<le> 2" using y0 by linarith
      from doy_le [OF this] this big sum c3 q24 show False by linarith
    qed
    show "yoe = 399 \<and> 306 \<le> doy" using big sum yoe c3 q24 y3 by linarith
  qed
  have low: "doe \<le> 146036 \<and> yoe = 399 \<longrightarrow> doy \<le> 305"
  proof
    assume s: "doe \<le> 146036 \<and> yoe = 399"
    have c3: "c = 3" using s yoe c0 q0 y0 by linarith
    have q24: "q = 24" using s yoe q0 y0 c3 by linarith
    have y3: "yy = 3" using s yoe c3 q24 by linarith
    show "doy \<le> 305" using s sum c3 q24 y3 by linarith
  qed
  from c03 q024 y03 top low show ?thesis unfolding yoe by auto
qed

lemma civil_from_days_bounds:
  assumes "civil_from_days z0 = (y, m, d)"
  shows "1 \<le> m \<and> m \<le> 12 \<and> 1 \<le> d \<and> d \<le> 31 \<and>
         (- 719528 \<le> z0 \<and> z0 \<le> 2932896 \<longrightarrow> 0 \<le> y \<and> y \<le> 9999)"
proof -
  define z where "z = z0 + 719468"
  define era where "era = z div 146097"
  define doe where "doe = z mod 146097"
  obtain yoe doy where yd: "year_of_era doe = (yoe, doy)" by (cases "year_of_era doe")
  obtain m' d' where md: "month_day doy = (m', d')" by (cases "month_day doy")
  have doe: "0 \<le> doe" "doe \<le> 146096" unfolding doe_def by simp_all
  have zsum: "146097 * era + doe = z" unfolding era_def doe_def by simp
  note yb = year_of_era_bounds [OF doe yd]
  have doy: "0 \<le> doy" "doy \<le> 365" using yb by simp_all
  note mb = month_day_bounds [OF doy md]
  have res: "y = yoe + era * 400 + (if m' \<le> 2 then 1 else 0)" "m = m'" "d = d'"
    using assms yd md
    unfolding civil_from_days_def Let_def z_def [symmetric] era_def [symmetric]
      doe_def [symmetric]
    by auto
  have yr: "0 \<le> y \<and> y \<le> 9999" if r: "- 719528 \<le> z0 \<and> z0 \<le> 2932896"
  proof -
    have zr: "- 60 \<le> z" "z \<le> 3652364" using r unfolding z_def by simp_all
    have er: "- 1 \<le> era" "era \<le> 24" using zr zsum doe by linarith+
    have lo: "0 \<le> y"
    proof (cases "era = - 1")
      case True
      then have "146037 \<le> doe" using zr zsum by linarith
      with yb have "yoe = 399" "306 \<le> doy" by simp_all
      with mb have "m' \<le> 2" by simp
      with \<open>yoe = 399\<close> True show ?thesis unfolding res by simp
    next
      case False
      then have "0 \<le> era" using er by linarith
      moreover have "0 \<le> yoe" using yb by simp
      ultimately show ?thesis unfolding res by simp
    qed
    have hi: "y \<le> 9999"
    proof (cases "era = 24")
      case True
      then have dl: "doe \<le> 146036" using zr zsum by linarith
      show ?thesis
      proof (cases "yoe = 399")
        case y: True
        with dl yb have "doy \<le> 305" by simp
        with mb have "3 \<le> m'" by simp
        with y \<open>era = 24\<close> show ?thesis unfolding res by simp
      next
        case False
        moreover have "yoe \<le> 399" using yb by simp
        ultimately have "yoe \<le> 398" by linarith
        with \<open>era = 24\<close> show ?thesis unfolding res by simp
      qed
    next
      case False
      then have "era \<le> 23" using er by linarith
      moreover have "yoe \<le> 399" using yb by simp
      ultimately show ?thesis unfolding res by simp
    qed
    from lo hi show ?thesis by simp
  qed
  from mb yr show ?thesis unfolding res by simp
qed

lemma is_digit_digit_char: "is_digit (digit_char n)"
proof -
  have "n mod 10 < length ''0123456789''" by simp
  then have "''0123456789'' ! (n mod 10) \<in> set ''0123456789''" by (rule nth_mem)
  then show ?thesis unfolding is_digit_def digit_char_def .
qed

lemma show_nat_digits: "list_all is_digit (show_nat n)"
proof (induction n rule: show_nat.induct)
  case (1 n)
  show ?case
  proof (cases "n < 10")
    case True
    then show ?thesis by (simp add: show_nat.simps [of n] is_digit_digit_char)
  next
    case False
    with 1 show ?thesis by (simp add: show_nat.simps [of n] is_digit_digit_char)
  qed
qed

lemma show_nat_length: "n < 10 ^ k \<Longrightarrow> 0 < k \<Longrightarrow> length (show_nat n) \<le> k"
proof (induction n arbitrary: k rule: show_nat.induct)
  case (1 n)
  show ?case
  proof (cases "n < 10")
    case True
    with 1(3) show ?thesis by (simp add: show_nat.simps [of n])
  next
    case False
    obtain j where k: "k = Suc j" using 1(3) by (cases k) auto
    have "j \<noteq> 0" using False 1(2) unfolding k by (cases j) auto
    moreover have "n div 10 < 10 ^ j" using 1(2) unfolding k by (simp add: less_mult_imp_div_less)
    ultimately have "length (show_nat (n div 10)) \<le> j" using 1(1) [OF False] by simp
    then show ?thesis using False unfolding k by (simp add: show_nat.simps [of n])
  qed
qed

lemma padStart_length: "length s \<le> n \<Longrightarrow> length (padStart n s) = n"
  by (simp add: padStart_def)

lemma is_digit_zero: "is_digit (CHR ''0'')"
  by (simp add: is_digit_def)

lemma padStart_digits: "list_all is_digit s \<Longrightarrow> list_all is_digit (padStart n s)"
  by (auto simp: padStart_def is_digit_zero list_all_iff)

lemma padded_number:
  "n < 10 ^ k \<Longrightarrow> 0 < k \<Longrightarrow>
     length (padStart k (show_nat n)) = k \<and> list_all is_digit (padStart k (show_nat n))"
  by (simp add: padStart_length show_nat_length padStart_digits show_nat_digits)

lemma YYYY_MM_DD_parts:
  assumes "length a = 4" "length b = 2" "length c = 2"
    and "list_all is_digit a" "list_all is_digit b" "list_all is_digit c"
  shows "is_YYYY_MM_DD (a @ ''-'' @ b @ ''-'' @ c)"
  using assms by (simp add: is_YYYY_MM_DD_def nth_append)

lemma digits_no_T: "list_all is_digit s \<Longrightarrow> CHR ''T'' \<notin> set s"
proof
  assume a: "list_all is_digit s" and b: "CHR ''T'' \<in> set s"
  then have "is_digit (CHR ''T'')" by (simp add: list_all_iff)
  then show False by (simp add: is_digit_def)
qed

lemma padded_no_T: "CHR ''T'' \<notin> set (padStart k (show_nat n))"
  by (rule digits_no_T) (simp add: padStart_digits show_nat_digits)

lemma year_string_no_T: "CHR ''T'' \<notin> set (year_string y)"
  by (simp add: year_string_def padded_no_T)

lemma date_string_no_T: "CHR ''T'' \<notin> set (date_string t)"
proof -
  obtain y m d where c: "civil_from_days (t div 86400000) = (y, m, d)"
    by (cases "civil_from_days (t div 86400000)")
  have "date_string t = year_string y @ ''-'' @ padStart 2 (show_nat (nat m)) @ ''-''
            @ padStart 2 (show_nat (nat d))"
    unfolding date_string_def c by simp
  then show ?thesis by (simp add: year_string_no_T padded_no_T)
qed

lemma date_string_nonempty: "date_string t \<noteq> []"
proof -
  obtain y m d where c: "civil_from_days (t div 86400000) = (y, m, d)"
    by (cases "civil_from_days (t div 86400000)")
  show ?thesis unfolding date_string_def c by simp
qed

lemma takeWhile_until: "x \<notin> set xs \<Longrightarrow> takeWhile (\<lambda>ch. ch \<noteq> x) (xs @ x # ys) = xs"
  by (induction xs) auto

lemma getTodayDate_date_string: "getTodayDate t = date_string t"
proof -
  have "Date_toISOString t = date_string t @ CHR ''T'' # (time_string t @ ''Z'')"
    by (simp add: Date_toISOString_def)
  then show ?thesis
    unfolding getTodayDate_def split_T_first_def
    by (simp only: takeWhile_until [OF date_string_no_T])
qed

lemma day_number_range:
  fixes t :: int
  assumes "- 62167219200000 \<le> t" "t < 253402300800000"
  shows "- 719528 \<le> t div 86400000 \<and> t div 86400000 \<le> 2932896"
proof -
  have "- 719528 = (- 62167219200000) div (86400000 :: int)" by simp
  also have "\<dots> \<le> t div 86400000" using assms(1) by (intro zdiv_mono1) simp_all
  finally have lo: "- 719528 \<le> t div 86400000" .
  have "t div 86400000 \<le> 253402300799999 div 86400000"
    using assms(2) by (intro zdiv_mono1) simp_all
  also have "\<dots> = 2932896" by simp
  finally show ?thesis using lo by simp
qed

lemma date_string_form:
  assumes "- 62167219200000 \<le> t" "t < 253402300800000"
  shows "is_YYYY_MM_DD (date_string t)"
proof -
  obtain y m d where c: "civil_from_days (t div 86400000) = (y, m, d)"
    by (cases "civil_from_days (t div 86400000)")
  note r = day_number_range [OF assms]
  from civil_from_days_bounds [OF c] r
  have b: "1 \<le> m" "m \<le> 12" "1 \<le> d" "d \<le> 31" "0 \<le> y" "y \<le> 9999" by simp_all
  have ys: "year_string y = padStart 4 (show_nat (nat y))"
    using b by (simp add: year_string_def)
  have y4: "nat y < 10 ^ 4" and m2: "nat m < 10 ^ 2" and d2: "nat d < 10 ^ 2"
    using b by simp_all
  have py: "length (padStart 4 (show_nat (nat y))) = 4 \<and>
            list_all is_digit (padStart 4 (show_nat (nat y)))"
    by (rule padded_number [OF y4]) simp
  have pm: "length (padStart 2 (show_nat (nat m))) = 2 \<and>
            list_all is_digit (padStart 2 (show_nat (nat m)))"
    by (rule padded_number [OF m2]) simp
  have pd: "length (padStart 2 (show_nat (nat d))) = 2 \<and>
            list_all is_digit (padStart 2 (show_nat (nat d)))"
    by (rule padded_number [OF d2]) simp
  have "is_YYYY_MM_DD (padStart 4 (show_nat (nat y)) @ ''-''
          @ padStart 2 (show_nat (nat m)) @ ''-'' @ padStart 2 (show_nat (nat d)))"
    using py pm pd by (intro YYYY_MM_DD_parts) simp_all
  moreover have "date_string t = padStart 4 (show_nat (nat y)) @ ''-''
          @ padStart 2 (show_nat (nat m)) @ ''-'' @ padStart 2 (show_nat (nat d))"
    by (simp add: date_string_def c ys)
  ultimately show ?thesis by simp
qed

section \<open>Facts about the reading handler\<close>

lemma reading_handler_other_key:
  "k \<noteq> d \<Longrightarrow> Map_get (fst (snd (reading_handler e clk d c))) k = Map_get c k"
  by (auto simp: reading_handler_def getCachedReading_def setCachedReading_def Map_get_set
      Map_get_delete split: option.splits sum.splits prod.splits)

lemma request_date_nonempty: "request_date clk req \<noteq> []"
  by (simp add: request_date_def getTodayDate_date_string date_string_nonempty
      split: option.splits)

lemma Map_keys_delete: "set (map fst (Map_delete c k)) \<subseteq> set (map fst c)"
  by (auto simp: Map_delete_def)

lemma getCachedReading_keys:
  "set (map fst (snd (getCachedReading now d c))) \<subseteq> set (map fst c)"
  using Map_keys_delete [of c d]
  by (simp add: getCachedReading_def Let_def split: option.splits)

lemma reading_handler_keys:
  "set (map fst (fst (snd (reading_handler e clk d c)))) \<subseteq> insert d (set (map fst c))"
proof -
  obtain r c1 where g: "getCachedReading (get_ms clk) d c = (r, c1)"
    by (cases "getCachedReading (get_ms clk) d c")
  have k: "set (map fst c1) \<subseteq> set (map fst c)"
    using getCachedReading_keys [of "get_ms clk" d c] by (simp add: g)
  obtain calls res where f: "fetchReading e d = (calls, res)"
    by (cases "fetchReading e d")
  show ?thesis
    using k
    by (cases r; cases res)
      (auto simp: reading_handler_def g f setCachedReading_def Let_def Map_keys_set
        simp del: set_map)
qed

lemma serve_fetch_keys:
  "set (map fst (fst (snd (serve_fetch e clk req c))))
     \<subseteq> insert (request_date clk req) (set (map fst c))"
  using reading_handler_keys [of e clk "request_date clk req" c]
  by (auto simp: serve_fetch_def Map_clear_def simp del: set_map)

lemma reading_url_date: "Map_get (snd (reading_url e d)) ''date'' = Some d"
  by (simp add: reading_url_def Map_get_def)

lemma reading_handler_calls:
  "u \<in> set (snd (snd (reading_handler e clk d c))) \<Longrightarrow> u = reading_url e d"
  by (auto simp: reading_handler_def fetchReading_def Let_def
      split: prod.splits option.splits sum.splits)

lemma serve_fetch_calls:
  "u \<in> set (snd (snd (serve_fetch e clk req c))) \<Longrightarrow>
     u = reading_url e (request_date clk req)"
  using reading_handler_calls [of u e clk "request_date clk req" c]
  by (auto simp: serve_fetch_def split: if_splits)

lemma serve_fetch_other_key:
  assumes "\<not> (pathname req = ''/reading'' \<and> request_date clk req = k)"
    and "\<not> (pathname req = ''/cache/clear'' \<and> req_method req = ''POST'')"
  shows "Map_get (fst (snd (serve_fetch e clk req c))) k = Map_get c k"
proof (cases "req_method req \<noteq> ''OPTIONS'' \<and> pathname req \<noteq> ''/health''
    \<and> pathname req = ''/reading''")
  case True
  then have "k \<noteq> request_date clk req" using assms(1) by auto
  from reading_handler_other_key [OF this] True show ?thesis
    by (simp add: serve_fetch_def)
next
  case False
  then show ?thesis using assms(2) by (auto simp: serve_fetch_def)
qed

lemma year_of_era_example: "year_of_era 9237 = (25, 106)"
  by (simp add: year_of_era_def Let_def)

lemma month_day_example: "month_day 106 = (6, 15)"
  by (simp add: month_day_def Let_def)

lemma civil_example: "civil_from_days 20254 = (2025, 6, 15)"
  by (simp add: civil_from_days_def Let_def year_of_era_example month_day_example)

lemma show_nat_examples:
  "show_nat 2025 = ''2025''" "show_nat 6 = ''6''" "show_nat 15 = ''15''"
  by (simp_all add: show_nat.simps digit_char_def)

lemma date_string_example: "date_string 1750000000000 = ''2025-06-15''"
proof -
  have "(1750000000000 :: int) div 86400000 = 20254" by simp
  then show ?thesis
    by (simp add: date_string_def civil_example year_string_def padStart_def
        show_nat_examples)
qed

text \<open>
  The cache starts empty and every request keeps its keys distinct, so on every cache the
  server can reach the length of the list is the number of keys.
\<close>

lemma getCachedReading_distinct:
  "distinct (map fst c) \<Longrightarrow> distinct (map fst (snd (getCachedReading now d c)))"
  using Map_distinct_delete [of c d]
  by (simp add: getCachedReading_def Let_def split: option.splits)

lemma reading_handler_distinct:
  assumes "distinct (map fst c)"
  shows "distinct (map fst (fst (snd (reading_handler e clk d c))))"
proof -
  obtain r c1 where g: "getCachedReading (get_ms clk) d c = (r, c1)"
    by (cases "getCachedReading (get_ms clk) d c")
  have k: "distinct (map fst c1)"
    using getCachedReading_distinct [OF assms, of "get_ms clk" d] by (simp add: g)
  obtain calls res where f: "fetchReading e d = (calls, res)"
    by (cases "fetchReading e d")
  show ?thesis
    using k Map_distinct_set [OF k]
    by (cases r; cases res) (simp_all add: reading_handler_def g f setCachedReading_def Let_def)
qed

lemma serve_fetch_distinct:
  "distinct (map fst c) \<Longrightarrow> distinct (map fst (fst (snd (serve_fetch e clk req c))))"
  using reading_handler_distinct [of c e clk "request_date clk req"]
  by (simp add: serve_fetch_def Map_clear_def)

section \<open>Claims about get and put\<close>

text \<open>
  C1. For every key and every reading of the clock: \<open>getCachedReading\<close> returns \<open>null\<close>
  and leaves the cache as it is when the key is not in the cache; when the key is present
  and \<open>now - timestamp > CACHE_TTL_MS\<close> it deletes the entry (the key is absent afterwards,
  every other key keeps its entry) and returns \<open>null\<close>; when the key is present and
  \<open>now - timestamp \<le> CACHE_TTL_MS\<close> it returns the stored entry, timestamp included, and
  the cache is unchanged.
\<close>

theorem getCachedReading_cases:
  "(Map_get c k = None \<longrightarrow> getCachedReading now k c = (None, c)) \<and>
   (\<forall>e. Map_get c k = Some e \<and> now - timestamp e > CACHE_TTL_MS \<longrightarrow>
      getCachedReading now k c = (None, Map_delete c k) \<and>
      Map_get (snd (getCachedReading now k c)) k = None \<and>
      (\<forall>k'. k' \<noteq> k \<longrightarrow> Map_get (snd (getCachedReading now k c)) k' = Map_get c k')) \<and>
   (\<forall>e. Map_get c k = Some e \<and> now - timestamp e \<le> CACHE_TTL_MS \<longrightarrow>
      getCachedReading now k c = (Some e, c))"
  by (auto simp: getCachedReading_def Map_get_delete)

theorem getCachedReading_cases_witness:
  "getCachedReading 5 ''b'' [(''a'', \<lparr>data = ''x'', timestamp = 0, date = ''a''\<rparr>)]
     = (None, [(''a'', \<lparr>data = ''x'', timestamp = 0, date = ''a''\<rparr>)]) \<and>
   getCachedReading 3600001 ''a'' [(''a'', \<lparr>data = ''x'', timestamp = 0, date = ''a''\<rparr>)]
     = (None, []) \<and>
   getCachedReading 3600000 ''a'' [(''a'', \<lparr>data = ''x'', timestamp = 0, date = ''a''\<rparr>)]
     = (Some \<lparr>data = ''x'', timestamp = 0, date = ''a''\<rparr>,
        [(''a'', \<lparr>data = ''x'', timestamp = 0, date = ''a''\<rparr>)])"
  using getCachedReading_cases
    [of "[(''a'', \<lparr>data = ''x'', timestamp = 0, date = ''a''\<rparr>)]" "''b''" 5]
    getCachedReading_cases
    [of "[(''a'', \<lparr>data = ''x'', timestamp = 0, date = ''a''\<rparr>)]" "''a''" 3600001]
    getCachedReading_cases
    [of "[(''a'', \<lparr>data = ''x'', timestamp = 0, date = ''a''\<rparr>)]" "''a''" 3600000]
  by (simp add: Map_get_def Map_delete_def CACHE_TTL_MS_def)

text \<open>
  C7. Last write wins. For every key \<open>k\<close> and values \<open>v1\<close>, \<open>v2\<close>: two calls of
  \<open>setCachedReading\<close> on \<open>k\<close> leave the cache the second call alone would leave
  (nothing of the first value or its timestamp is kept); the entry under \<open>k\<close> is then
  \<open>v2\<close> with \<open>timestamp\<close> the clock reading of the second call and \<open>date = k\<close>; and
  \<open>getCachedReading\<close> returns that entry exactly while \<open>now\<close> minus the second
  timestamp is at most \<open>CACHE_TTL_MS\<close>, whatever the first timestamp was.
\<close>

theorem put_put_get:
  "setCachedReading t2 k v2 (setCachedReading t1 k v1 c) = setCachedReading t2 k v2 c \<and>
   Map_get (setCachedReading t2 k v2 (setCachedReading t1 k v1 c)) k
     = Some \<lparr>data = v2, timestamp = t2, date = k\<rparr> \<and>
   (now - t2 \<le> CACHE_TTL_MS \<longrightarrow>
      fst (getCachedReading now k (setCachedReading t2 k v2 (setCachedReading t1 k v1 c)))
        = Some \<lparr>data = v2, timestamp = t2, date = k\<rparr>) \<and>
   (now - t2 > CACHE_TTL_MS \<longrightarrow>
      fst (getCachedReading now k (setCachedReading t2 k v2 (setCachedReading t1 k v1 c)))
        = None)"
  by (simp add: setCachedReading_def getCachedReading_def Map_get_set Map_set_twice)

theorem put_put_get_witness:
  "(4000000 - 500000 \<le> CACHE_TTL_MS) \<and>
   fst (getCachedReading 4000000 ''2025-06-15''
          (setCachedReading 500000 ''2025-06-15'' ''v2''
             (setCachedReading 0 ''2025-06-15'' ''v1'' example_cache)))
     = Some \<lparr>data = ''v2'', timestamp = 500000, date = ''2025-06-15''\<rparr> \<and>
   (4200000 - 500000 > CACHE_TTL_MS) \<and>
   fst (getCachedReading 4200000 ''2025-06-15''
          (setCachedReading 500000 ''2025-06-15'' ''v2''
             (setCachedReading 0 ''2025-06-15'' ''v1'' example_cache)))
     = None"
proof -
  have a: "4000000 - 500000 \<le> CACHE_TTL_MS" and b: "4200000 - 500000 > CACHE_TTL_MS"
    by (simp_all add: CACHE_TTL_MS_def)
  show ?thesis
    using a b
      put_put_get [of 500000 "''2025-06-15''" "''v2''" 0 "''v1''" example_cache 4000000]
      put_put_get [of 500000 "''2025-06-15''" "''v2''" 0 "''v1''" example_cache 4200000]
    by (simp add: setCachedReading_def getCachedReading_def example_cache_def Map_get_def)
qed

text \<open>
  C8. Round trip. For every key \<open>k\<close> and value \<open>v\<close>: \<open>setCachedReading\<close> at time \<open>t\<close>
  followed by \<open>getCachedReading\<close> at a time \<open>now\<close> with \<open>now - t \<le> CACHE_TTL_MS\<close>
  returns an entry whose \<open>data\<close> is \<open>v\<close>.
\<close>

theorem put_get_roundtrip:
  "now - t \<le> CACHE_TTL_MS \<Longrightarrow>
     \<exists>entry. fst (getCachedReading now k (setCachedReading t k v c)) = Some entry \<and>
       data entry = v"
  by (simp add: setCachedReading_def getCachedReading_def Map_get_set)

theorem put_get_roundtrip_witness:
  "3600000 - 0 \<le> CACHE_TTL_MS \<and>
   (\<exists>entry. fst (getCachedReading 3600000 ''2025-06-15''
                   (setCachedReading 0 ''2025-06-15'' ''<html>reading</html>'' []))
        = Some entry \<and> data entry = ''<html>reading</html>'')"
proof -
  have a: "3600000 - 0 \<le> CACHE_TTL_MS" by (simp add: CACHE_TTL_MS_def)
  show ?thesis
    using a put_get_roundtrip [OF a, of "''2025-06-15''" "''<html>reading</html>''" "[]"]
    by simp
qed

section \<open>Claims about stats and clear\<close>

text \<open>
  C5. For every cache and every reading of the clock, the \<open>/cache/stats\<close> response
  reports \<open>size\<close> equal to the number of entries of the map (its cardinality, the keys of
  a Map being distinct) and one record per entry, in the map's order, expired entries
  included: the record of entry \<open>i\<close> carries its key, its date and, followed by \<open>s\<close>, the
  integer \<open>r\<close> nearest to \<open>(now - timestamp) / 1000\<close>, a tie going up, that is
  \<open>1000 r - 500 \<le> now - timestamp < 1000 r + 500\<close>, where \<open>now\<close> is the clock reading
  taken for that entry.
\<close>

theorem stats_reports_all_entries:
  "req_method req \<noteq> ''OPTIONS'' \<Longrightarrow> pathname req = ''/cache/stats'' \<Longrightarrow>
   \<exists>entries. body (fst (serve_fetch e clk req c)) = StatsJson (length c) CACHE_TTL_MS entries \<and>
     length entries = length c \<and>
     (distinct (map fst c) \<longrightarrow> length c = card (dom (Map_get c))) \<and>
     (\<forall>i<length c. \<exists>r.
        entries ! i = \<lparr>entry_key = fst (c ! i), entry_date = date (snd (c ! i)),
                       entry_age = Number_toString r @ ''s''\<rparr> \<and>
        1000 * r - 500 \<le> stats_ms clk i - timestamp (snd (c ! i)) \<and>
        stats_ms clk i - timestamp (snd (c ! i)) < 1000 * r + 500)"
proof -
  assume m: "req_method req \<noteq> ''OPTIONS''" and p: "pathname req = ''/cache/stats''"
  have b: "body (fst (serve_fetch e clk req c))
             = StatsJson (length c) CACHE_TTL_MS (stats_entries clk c)"
    using m p by (simp add: serve_fetch_def Map_size_def)
  have l: "length (stats_entries clk c) = length c"
    by (simp add: stats_entries_def Map_entries_def)
  have k: "distinct (map fst c) \<longrightarrow> length c = card (dom (Map_get c))"
    using Map_size_card [of c] by (simp add: Map_size_def)
  have n: "\<forall>i<length c. \<exists>r.
        stats_entries clk c ! i = \<lparr>entry_key = fst (c ! i), entry_date = date (snd (c ! i)),
                       entry_age = Number_toString r @ ''s''\<rparr> \<and>
        1000 * r - 500 \<le> stats_ms clk i - timestamp (snd (c ! i)) \<and>
        stats_ms clk i - timestamp (snd (c ! i)) < 1000 * r + 500"
  proof (intro allI impI)
    fix i assume i: "i < length c"
    let ?d = "stats_ms clk i - timestamp (snd (c ! i))"
    show "\<exists>r. stats_entries clk c ! i = \<lparr>entry_key = fst (c ! i), entry_date = date (snd (c ! i)),
                       entry_age = Number_toString r @ ''s''\<rparr> \<and>
        1000 * r - 500 \<le> ?d \<and> ?d < 1000 * r + 500"
      using stats_entries_nth [OF i, of clk] Math_round_nearest [of ?d]
      by (intro exI [of _ "Math_round (of_int ?d / 1000)"]) (simp add: age_string_def)
  qed
  from b l k n show ?thesis by blast
qed

theorem stats_reports_all_entries_witness:
  "req_method (example_request ''GET'' ''/cache/stats'' []) \<noteq> ''OPTIONS'' \<and>
   pathname (example_request ''GET'' ''/cache/stats'' []) = ''/cache/stats'' \<and>
   CACHE_TTL_MS < 7200499 - timestamp (snd (example_cache ! 0)) \<and>
   body (fst (serve_fetch (example_env FailedNonError) (clock_at 7200499)
            (example_request ''GET'' ''/cache/stats'' []) example_cache))
     = StatsJson 1 3600000
         [\<lparr>entry_key = ''2025-06-15'', entry_date = ''2025-06-15'', entry_age = ''7200s''\<rparr>]"
proof -
  have m: "req_method (example_request ''GET'' ''/cache/stats'' []) \<noteq> ''OPTIONS''"
    by (simp add: example_request_def)
  have p: "pathname (example_request ''GET'' ''/cache/stats'' []) = ''/cache/stats''"
    by (simp add: example_request_def)
  note t = stats_reports_all_entries [OF m p, of "example_env FailedNonError"
      "clock_at 7200499" example_cache]
  have "?thesis"
    using m p age_example
    by (simp add: serve_fetch_def example_request_def example_cache_def clock_at_def
        stats_entries_def Map_entries_def Map_size_def CACHE_TTL_MS_def enumerate_eq_zip)
  with t show ?thesis by - assumption
qed

text \<open>
  C6. The \<open>/cache/stats\<close> request leaves the cache exactly as it was, whatever the ages of
  its entries, and makes no outbound request. The example has an entry older than
  \<open>CACHE_TTL_MS\<close>, which \<open>getCachedReading\<close> at the same time would evict.
\<close>

theorem stats_leaves_cache:
  "pathname req = ''/cache/stats'' \<Longrightarrow>
     fst (snd (serve_fetch e clk req c)) = c \<and> snd (snd (serve_fetch e clk req c)) = []"
  by (simp add: serve_fetch_def)

theorem stats_leaves_cache_witness:
  "pathname (example_request ''GET'' ''/cache/stats'' []) = ''/cache/stats'' \<and>
   CACHE_TTL_MS < 7200499 - timestamp (snd (example_cache ! 0)) \<and>
   fst (snd (serve_fetch (example_env FailedNonError) (clock_at 7200499)
               (example_request ''GET'' ''/cache/stats'' []) example_cache)) = example_cache \<and>
   fst (getCachedReading 7200499 ''2025-06-15'' example_cache) = None \<and>
   snd (getCachedReading 7200499 ''2025-06-15'' example_cache) = []"
proof -
  have p: "pathname (example_request ''GET'' ''/cache/stats'' []) = ''/cache/stats''"
    by (simp add: example_request_def)
  show ?thesis
    using p stats_leaves_cache [OF p, of "example_env FailedNonError" "clock_at 7200499"
        example_cache]
    by (simp add: example_cache_def CACHE_TTL_MS_def getCachedReading_def Map_get_def
        Map_delete_def)
qed

text \<open>
  C9. After \<open>POST /cache/clear\<close> the cache is empty: \<open>getCachedReading\<close> returns \<open>null\<close>
  for every key at every time, previously present or not, and the \<open>/cache/stats\<close> response
  on the cleared cache has \<open>size = 0\<close> and no entries.
\<close>

theorem clear_empties_cache:
  "req_method req = ''POST'' \<Longrightarrow> pathname req = ''/cache/clear'' \<Longrightarrow>
   req_method sreq \<noteq> ''OPTIONS'' \<Longrightarrow> pathname sreq = ''/cache/stats'' \<Longrightarrow>
     fst (snd (serve_fetch e clk req c)) = [] \<and>
     (\<forall>k now. getCachedReading now k (fst (snd (serve_fetch e clk req c))) = (None, [])) \<and>
     body (fst (serve_fetch e' clk' sreq (fst (snd (serve_fetch e clk req c)))))
       = StatsJson 0 CACHE_TTL_MS []"
  by (simp add: serve_fetch_def Map_clear_def getCachedReading_def Map_get_def Map_size_def
      stats_entries_def Map_entries_def)

theorem clear_empties_cache_witness:
  "req_method (example_request ''POST'' ''/cache/clear'' []) = ''POST'' \<and>
   pathname (example_request ''POST'' ''/cache/clear'' []) = ''/cache/clear'' \<and>
   req_method (example_request ''GET'' ''/cache/stats'' []) \<noteq> ''OPTIONS'' \<and>
   pathname (example_request ''GET'' ''/cache/stats'' []) = ''/cache/stats'' \<and>
   Map_get example_cache ''2025-06-15'' \<noteq> None \<and>
   fst (snd (serve_fetch (example_env FailedNonError) (clock_at 5)
               (example_request ''POST'' ''/cache/clear'' []) example_cache)) = [] \<and>
   getCachedReading 5 ''2025-06-15''
     (fst (snd (serve_fetch (example_env FailedNonError) (clock_at 5)
                  (example_request ''POST'' ''/cache/clear'' []) example_cache))) = (None, [])"
proof -
  have a: "req_method (example_request ''POST'' ''/cache/clear'' []) = ''POST''"
    and b: "pathname (example_request ''POST'' ''/cache/clear'' []) = ''/cache/clear''"
    and c: "req_method (example_request ''GET'' ''/cache/stats'' []) \<noteq> ''OPTIONS''"
    and d: "pathname (example_request ''GET'' ''/cache/stats'' []) = ''/cache/stats''"
    by (simp_all add: example_request_def)
  note t = clear_empties_cache [OF a b c d, of "example_env FailedNonError" "clock_at 5"
      example_cache "example_env FailedNonError" "clock_at 5"]
  have "?thesis"
    using a b c d t by (simp add: example_cache_def Map_get_def getCachedReading_def)
  with t show ?thesis by - assumption
qed

section \<open>Claims about the upstream fetch\<close>

text \<open>
  C4. For every date, \<open>fetchReading\<close> returns the body text exactly when the upstream
  responded with a status in 200..299, the text being the response's body as it is; it
  throws the error built from the status code and the status text exactly when the
  upstream responded with another status; it fails in some way exactly when there was no
  successful response; it makes exactly one outbound request; and the message of the
  error is \<open>NLT API error: \<close> followed by the status code, a space and the status text.
\<close>

theorem fetchReading_iff:
  "(snd (fetchReading e d) = Inr txt \<longleftrightarrow>
      (\<exists>r. upstream e (reading_url e d) = Responded r \<and> res_ok r \<and> res_text r = txt)) \<and>
   (snd (fetchReading e d) = Inl (UpstreamError st stxt) \<longleftrightarrow>
      (\<exists>r. upstream e (reading_url e d) = Responded r \<and> \<not> res_ok r \<and>
           res_status r = st \<and> res_statusText r = stxt)) \<and>
   ((\<exists>err. snd (fetchReading e d) = Inl err) \<longleftrightarrow>
      \<not> (\<exists>r. upstream e (reading_url e d) = Responded r \<and> res_ok r)) \<and>
   fst (fetchReading e d) = [reading_url e d] \<and>
   error_message (UpstreamError st stxt)
     = ''NLT API error: '' @ Number_toString (int st) @ '' '' @ stxt"
  by (auto simp: fetchReading_def Let_def upstream_message_def split: fetch_outcome.splits)

theorem fetchReading_iff_witness:
  "snd (fetchReading
          (example_env (Responded \<lparr>res_status = 503, res_statusText = ''Service Unavailable'',
                                    res_text = ''down''\<rparr>)) ''2025-06-15'')
     = Inl (UpstreamError 503 ''Service Unavailable'') \<and>
   error_message (UpstreamError 503 ''Service Unavailable'')
     = ''NLT API error: 503 Service Unavailable'' \<and>
   snd (fetchReading
          (example_env (Responded \<lparr>res_status = 200, res_statusText = ''OK'',
                                    res_text = ''<html>reading</html>''\<rparr>)) ''2025-06-15'')
     = Inr ''<html>reading</html>'' \<and>
   snd (fetchReading (example_env (FailedError ''fetch failed'')) ''2025-06-15'')
     = Inl (TransportError ''fetch failed'')"
proof -
  note t = fetchReading_iff
    [of "example_env (Responded \<lparr>res_status = 503,
           res_statusText = ''Service Unavailable'', res_text = ''down''\<rparr>)"
        "''2025-06-15''" "''down''" 503 "''Service Unavailable''"]
  have n: "show_nat 503 = ''503''"
    by (simp add: show_nat.simps digit_char_def)
  have "?thesis"
    by (simp add: fetchReading_def example_env_def upstream_always_def res_ok_def
        upstream_message_def Number_toString_def n)
  with t show ?thesis by - assumption
qed

text \<open>
  C3, as the specification states it: whenever the date's key is a cache miss and the
  upstream answers with a non-success status, the response is a 500 and the cache is left
  unchanged. It fails when the miss comes from an expired entry: the cache holds an entry
  for 2025-06-15 written at time 0, the request arrives at 7200499 ms, the upstream answers
  503; the lookup evicts the entry before the fetch, so the cache after the request is not
  the cache before it.
\<close>

theorem failed_fetch_unchanged_counterexample:
  "fst (getCachedReading (get_ms (clock_at 7200499)) ''2025-06-15'' example_cache) = None \<and>
   status (fst (serve_fetch
       (example_env (Responded \<lparr>res_status = 503, res_statusText = ''Service Unavailable'',
                                 res_text = ''down''\<rparr>))
       (clock_at 7200499)
       (example_request ''GET'' ''/reading'' [(''date'', ''2025-06-15'')])
       example_cache)) = 500 \<and>
   fst (snd (serve_fetch
       (example_env (Responded \<lparr>res_status = 503, res_statusText = ''Service Unavailable'',
                                 res_text = ''down''\<rparr>))
       (clock_at 7200499)
       (example_request ''GET'' ''/reading'' [(''date'', ''2025-06-15'')])
       example_cache)) \<noteq> example_cache"
  by (simp add: serve_fetch_def reading_handler_def request_date_def getCachedReading_def
      Let_def fetchReading_def example_env_def upstream_always_def clock_at_def example_request_def
      example_cache_def Map_get_def Map_delete_def res_ok_def CACHE_TTL_MS_def)

text \<open>
  C3, amended. For every reading request whose date is a cache miss and whose upstream
  fetch answers with a non-success status: the response has status 500 and its error
  message is \<open>NLT API error: \<close> followed by the status code, a space and the status text;
  the failed fetch writes nothing: the cache after the request is the cache the lookup
  left, that is the cache with the key of the date deleted; the date has no entry
  afterwards, every other key keeps its entry, and when the key was not in the cache at
  all the cache is unchanged.
\<close>

theorem failed_fetch_writes_nothing:
  assumes "req_method req \<noteq> ''OPTIONS''" and "pathname req = ''/reading''"
    and "fst (getCachedReading (get_ms clk) (request_date clk req) c) = None"
    and "upstream e (reading_url e (request_date clk req)) = Responded r"
    and "\<not> res_ok r"
  shows "status (fst (serve_fetch e clk req c)) = 500 \<and>
     body (fst (serve_fetch e clk req c))
       = ErrorJson (''NLT API error: '' @ Number_toString (int (res_status r)) @ '' ''
                      @ res_statusText r) \<and>
     fst (snd (serve_fetch e clk req c))
       = snd (getCachedReading (get_ms clk) (request_date clk req) c) \<and>
     fst (snd (serve_fetch e clk req c)) = Map_delete c (request_date clk req) \<and>
     Map_get (fst (snd (serve_fetch e clk req c))) (request_date clk req) = None \<and>
     (\<forall>k. k \<noteq> request_date clk req \<longrightarrow>
        Map_get (fst (snd (serve_fetch e clk req c))) k = Map_get c k) \<and>
     (Map_get c (request_date clk req) = None \<longrightarrow> fst (snd (serve_fetch e clk req c)) = c)"
proof -
  let ?d = "request_date clk req"
  have s: "serve_fetch e clk req c = reading_handler e clk ?d c"
    using assms(1,2) by (simp add: serve_fetch_def)
  have f: "fetchReading e ?d
             = ([reading_url e ?d], Inl (UpstreamError (res_status r) (res_statusText r)))"
    using assms(4,5) by (simp add: fetchReading_def)
  obtain c1 where g: "getCachedReading (get_ms clk) ?d c = (None, c1)"
    using assms(3) by (cases "getCachedReading (get_ms clk) ?d c") simp
  have c1: "c1 = Map_delete c ?d"
    using g by (auto simp: getCachedReading_def Let_def Map_delete_absent
        split: option.splits if_splits)
  have h: "reading_handler e clk ?d c =
      (\<lparr>status = 500, headers = addCorsHeaders [],
        body = ErrorJson (upstream_message (res_status r) (res_statusText r))\<rparr>,
       c1, [reading_url e ?d])"
    by (simp add: reading_handler_def g f)
  show ?thesis
    unfolding s h
    by (simp add: g c1 upstream_message_def Map_get_delete Map_delete_absent)
qed

theorem failed_fetch_writes_nothing_witness:
  "status (fst (serve_fetch
       (example_env (Responded \<lparr>res_status = 503, res_statusText = ''Service Unavailable'',
                                 res_text = ''down''\<rparr>))
       (clock_at 7200499)
       (example_request ''GET'' ''/reading'' [(''date'', ''2025-06-15'')])
       example_cache)) = 500 \<and>
   body (fst (serve_fetch
       (example_env (Responded \<lparr>res_status = 503, res_statusText = ''Service Unavailable'',
                                 res_text = ''down''\<rparr>))
       (clock_at 7200499)
       (example_request ''GET'' ''/reading'' [(''date'', ''2025-06-15'')])
       example_cache)) = ErrorJson ''NLT API error: 503 Service Unavailable'' \<and>
   fst (snd (serve_fetch
       (example_env (Responded \<lparr>res_status = 503, res_statusText = ''Service Unavailable'',
                                 res_text = ''down''\<rparr>))
       (clock_at 7200499)
       (example_request ''GET'' ''/reading'' [(''date'', ''2025-06-15'')])
       example_cache)) = []"
proof -
  let ?e = "example_env (Responded \<lparr>res_status = 503,
              res_statusText = ''Service Unavailable'', res_text = ''down''\<rparr>)"
  let ?clk = "clock_at 7200499"
  let ?req = "example_request ''GET'' ''/reading'' [(''date'', ''2025-06-15'')]"
  have d: "request_date ?clk ?req = ''2025-06-15''"
    by (simp add: request_date_def example_request_def Map_get_def)
  have a1: "req_method ?req \<noteq> ''OPTIONS''" and a2: "pathname ?req = ''/reading''"
    by (simp_all add: example_request_def)
  have a3: "fst (getCachedReading (get_ms ?clk) (request_date ?clk ?req) example_cache) = None"
    unfolding d
    by (simp add: getCachedReading_def Let_def clock_at_def example_cache_def Map_get_def
        CACHE_TTL_MS_def)
  have a4: "upstream ?e (reading_url ?e (request_date ?clk ?req))
              = Responded \<lparr>res_status = 503, res_statusText = ''Service Unavailable'',
                            res_text = ''down''\<rparr>"
    by (simp add: example_env_def upstream_always_def)
  have a5: "\<not> res_ok \<lparr>res_status = 503, res_statusText = ''Service Unavailable'',
                        res_text = ''down''\<rparr>"
    by (simp add: res_ok_def)
  have n: "show_nat 503 = ''503''"
    by (simp add: show_nat.simps digit_char_def)
  note t = failed_fetch_writes_nothing [OF a1 a2 a3 a4 a5]
  from t have "status (fst (serve_fetch ?e ?clk ?req example_cache)) = 500"
    by (rule conjunct1)
  moreover from t have "body (fst (serve_fetch ?e ?clk ?req example_cache))
      = ErrorJson ''NLT API error: 503 Service Unavailable''"
    by (simp add: Number_toString_def n)
  moreover from t have "fst (snd (serve_fetch ?e ?clk ?req example_cache))
      = Map_delete example_cache ''2025-06-15''"
    unfolding d by blast
  ultimately show ?thesis
    by (simp add: example_cache_def Map_delete_def)
qed

section \<open>Claims about lazy expiry and the default date\<close>

text \<open>
  C2. Expiry is lazy. For every cache, every key \<open>k\<close> holding an entry and every time
  \<open>now\<close>: the entry is valid (\<open>now - timestamp \<le> CACHE_TTL_MS\<close>) or the next
  \<open>getCachedReading\<close> of \<open>k\<close>, at \<open>now\<close> or later, returns \<open>null\<close> and deletes it. The
  statement holds of every cache, so every operation preserves it. Nothing but a lookup of
  \<open>k\<close> or a clear removes the entry: a lookup of another key, a put on another key and
  every request that is neither a reading of date \<open>k\<close> nor \<open>POST /cache/clear\<close> (stats and
  health among them) leave the entry of \<open>k\<close> as it is, whatever its age; a put on \<open>k\<close>
  itself keeps the key present and replaces the entry by the fresh one.
\<close>

theorem lazy_expiry_invariant:
  assumes "Map_get c k = Some entry"
  shows
    "(now - timestamp entry \<le> CACHE_TTL_MS \<or>
        (\<forall>now'. now \<le> now' \<longrightarrow>
           getCachedReading now' k c = (None, Map_delete c k) \<and>
           Map_get (snd (getCachedReading now' k c)) k = None)) \<and>
     (\<forall>t k'. k' \<noteq> k \<longrightarrow> Map_get (snd (getCachedReading t k' c)) k = Some entry) \<and>
     (\<forall>t k' v. k' \<noteq> k \<longrightarrow> Map_get (setCachedReading t k' v c) k = Some entry) \<and>
     (\<forall>t v. Map_get (setCachedReading t k v c) k
               = Some \<lparr>data = v, timestamp = t, date = k\<rparr>) \<and>
     (\<forall>e clk req.
        \<not> (pathname req = ''/reading'' \<and> request_date clk req = k) \<and>
        \<not> (pathname req = ''/cache/clear'' \<and> req_method req = ''POST'') \<longrightarrow>
        Map_get (fst (snd (serve_fetch e clk req c))) k = Some entry)"
proof -
  have a: "now - timestamp entry \<le> CACHE_TTL_MS \<or>
        (\<forall>now'. now \<le> now' \<longrightarrow>
           getCachedReading now' k c = (None, Map_delete c k) \<and>
           Map_get (snd (getCachedReading now' k c)) k = None)"
    using assms by (auto simp: getCachedReading_def Let_def Map_get_delete)
  have b: "\<forall>t k'. k' \<noteq> k \<longrightarrow> Map_get (snd (getCachedReading t k' c)) k = Some entry"
    using assms
    by (auto simp: getCachedReading_def Let_def Map_get_delete split: option.splits)
  have s: "\<forall>t k' v. k' \<noteq> k \<longrightarrow> Map_get (setCachedReading t k' v c) k = Some entry"
    using assms by (simp add: setCachedReading_def Let_def Map_get_set)
  have o: "\<forall>t v. Map_get (setCachedReading t k v c) k
               = Some \<lparr>data = v, timestamp = t, date = k\<rparr>"
    by (simp add: setCachedReading_def Let_def Map_get_set)
  have r: "\<forall>e clk req.
        \<not> (pathname req = ''/reading'' \<and> request_date clk req = k) \<and>
        \<not> (pathname req = ''/cache/clear'' \<and> req_method req = ''POST'') \<longrightarrow>
        Map_get (fst (snd (serve_fetch e clk req c))) k = Some entry"
    using assms by (simp add: serve_fetch_other_key)
  from a b s o r show ?thesis by blast
qed

theorem lazy_expiry_invariant_witness:
  "Map_get example_cache ''2025-06-15''
     = Some \<lparr>data = ''old'', timestamp = 0, date = ''2025-06-15''\<rparr> \<and>
   \<not> 7200499 - timestamp \<lparr>data = ''old'', timestamp = 0, date = ''2025-06-15''\<rparr>
       \<le> CACHE_TTL_MS \<and>
   getCachedReading 7200500 ''2025-06-15'' example_cache = (None, []) \<and>
   Map_get (snd (getCachedReading 7200500 ''2025-06-16'' example_cache)) ''2025-06-15''
     = Some \<lparr>data = ''old'', timestamp = 0, date = ''2025-06-15''\<rparr> \<and>
   Map_get (setCachedReading 7200500 ''2025-06-16'' ''new'' example_cache) ''2025-06-15''
     = Some \<lparr>data = ''old'', timestamp = 0, date = ''2025-06-15''\<rparr> \<and>
   Map_get (fst (snd (serve_fetch (example_env FailedNonError) (clock_at 7200500)
                        (example_request ''GET'' ''/cache/stats'' []) example_cache)))
       ''2025-06-15''
     = Some \<lparr>data = ''old'', timestamp = 0, date = ''2025-06-15''\<rparr>"
proof -
  let ?en = "\<lparr>data = ''old'', timestamp = 0, date = ''2025-06-15''\<rparr>"
  have a: "Map_get example_cache ''2025-06-15'' = Some ?en"
    by (simp add: example_cache_def Map_get_def)
  have x: "\<not> 7200499 - timestamp ?en \<le> CACHE_TTL_MS"
    by (simp add: CACHE_TTL_MS_def)
  note t = lazy_expiry_invariant [OF a, of 7200499]
  have d: "Map_delete example_cache ''2025-06-15'' = []"
    by (simp add: example_cache_def Map_delete_def)
  from t x have "\<forall>now'. 7200499 \<le> now' \<longrightarrow>
           getCachedReading now' ''2025-06-15'' example_cache
             = (None, Map_delete example_cache ''2025-06-15'') \<and>
           Map_get (snd (getCachedReading now' ''2025-06-15'' example_cache)) ''2025-06-15''
             = None"
    by blast
  then have g: "getCachedReading 7200500 ''2025-06-15'' example_cache = (None, [])"
    unfolding d by simp
  from t have b: "Map_get (snd (getCachedReading 7200500 ''2025-06-16'' example_cache))
        ''2025-06-15'' = Some ?en"
    by simp
  from t have s: "Map_get (setCachedReading 7200500 ''2025-06-16'' ''new'' example_cache)
        ''2025-06-15'' = Some ?en"
    by simp
  have p: "\<not> (pathname (example_request ''GET'' ''/cache/stats'' []) = ''/reading'' \<and>
        request_date (clock_at 7200500) (example_request ''GET'' ''/cache/stats'' [])
          = ''2025-06-15'') \<and>
        \<not> (pathname (example_request ''GET'' ''/cache/stats'' []) = ''/cache/clear'' \<and>
           req_method (example_request ''GET'' ''/cache/stats'' []) = ''POST'')"
    by (simp add: example_request_def)
  from t p have r: "Map_get (fst (snd (serve_fetch (example_env FailedNonError)
      (clock_at 7200500) (example_request ''GET'' ''/cache/stats'' []) example_cache)))
       ''2025-06-15'' = Some ?en"
    by blast
  from a x g b s r show ?thesis by simp
qed

text \<open>
  C10. A reading request whose \<open>date\<close> parameter is present and empty is handled as one
  without the parameter: the date is \<open>getTodayDate\<close> at the current time, which is the UTC
  date part of the ISO string and has the form \<open>YYYY-MM-DD\<close> for every time in the years
  0..9999; the whole outcome of the request (response, cache, outbound requests) equals
  that of the same request with any parameters that have no \<open>date\<close>. The date is never the
  empty string: every outbound request carries today's date, and the request adds no
  entry under the empty key.
\<close>

theorem empty_date_is_today:
  assumes "Map_get (searchParams req) ''date'' = Some []"
    and "Map_get q ''date'' = None"
  shows "request_date clk req = getTodayDate (today_ms clk) \<and>
     request_date clk (req\<lparr>searchParams := q\<rparr>) = getTodayDate (today_ms clk) \<and>
     serve_fetch e clk req c = serve_fetch e clk (req\<lparr>searchParams := q\<rparr>) c \<and>
     getTodayDate (today_ms clk) = date_string (today_ms clk) \<and>
     (- 62167219200000 \<le> today_ms clk \<and> today_ms clk < 253402300800000 \<longrightarrow>
        is_YYYY_MM_DD (request_date clk req)) \<and>
     request_date clk req \<noteq> [] \<and>
     (\<forall>u \<in> set (snd (snd (serve_fetch e clk req c))).
        Map_get (snd u) ''date'' = Some (getTodayDate (today_ms clk)) \<and>
        Map_get (snd u) ''date'' \<noteq> Some []) \<and>
     ([] \<notin> set (map fst c) \<longrightarrow> [] \<notin> set (map fst (fst (snd (serve_fetch e clk req c)))))"
proof -
  have d1: "request_date clk req = getTodayDate (today_ms clk)"
    using assms(1) by (simp add: request_date_def)
  have d2: "request_date clk (req\<lparr>searchParams := q\<rparr>) = getTodayDate (today_ms clk)"
    using assms(2) by (simp add: request_date_def)
  have s: "serve_fetch e clk req c = serve_fetch e clk (req\<lparr>searchParams := q\<rparr>) c"
    by (simp add: serve_fetch_def d1 d2)
  have ne: "request_date clk req \<noteq> []" by (rule request_date_nonempty)
  have form: "- 62167219200000 \<le> today_ms clk \<and> today_ms clk < 253402300800000 \<longrightarrow>
        is_YYYY_MM_DD (request_date clk req)"
    unfolding d1 getTodayDate_date_string by (simp add: date_string_form)
  have calls: "\<forall>u \<in> set (snd (snd (serve_fetch e clk req c))).
        Map_get (snd u) ''date'' = Some (getTodayDate (today_ms clk)) \<and>
        Map_get (snd u) ''date'' \<noteq> Some []"
  proof
    fix u assume "u \<in> set (snd (snd (serve_fetch e clk req c)))"
    then have "u = reading_url e (request_date clk req)" by (rule serve_fetch_calls)
    then show "Map_get (snd u) ''date'' = Some (getTodayDate (today_ms clk)) \<and>
        Map_get (snd u) ''date'' \<noteq> Some []"
      using ne by (simp add: reading_url_date d1)
  qed
  have keys: "[] \<notin> set (map fst c) \<longrightarrow>
      [] \<notin> set (map fst (fst (snd (serve_fetch e clk req c))))"
    using serve_fetch_keys [of e clk req c] ne by auto
  from d1 d2 s ne form calls keys show ?thesis
    by (simp only: getTodayDate_date_string simp_thms)
qed

theorem empty_date_is_today_witness:
  "Map_get (searchParams (example_request ''GET'' ''/reading'' [(''date'', [])])) ''date''
     = Some [] \<and>
   Map_get [] ''date'' = (None :: string option) \<and>
   request_date (clock_at 1750000000000)
     (example_request ''GET'' ''/reading'' [(''date'', [])]) = ''2025-06-15'' \<and>
   is_YYYY_MM_DD (request_date (clock_at 1750000000000)
     (example_request ''GET'' ''/reading'' [(''date'', [])])) \<and>
   serve_fetch
     (example_env (Responded \<lparr>res_status = 200, res_statusText = ''OK'',
                               res_text = ''<html>reading</html>''\<rparr>))
     (clock_at 1750000000000)
     (example_request ''GET'' ''/reading'' [(''date'', [])]) []
   = serve_fetch
     (example_env (Responded \<lparr>res_status = 200, res_statusText = ''OK'',
                               res_text = ''<html>reading</html>''\<rparr>))
     (clock_at 1750000000000)
     (example_request ''GET'' ''/reading'' []) [] \<and>
   fst (snd (serve_fetch
     (example_env (Responded \<lparr>res_status = 200, res_statusText = ''OK'',
                               res_text = ''<html>reading</html>''\<rparr>))
     (clock_at 1750000000000)
     (example_request ''GET'' ''/reading'' [(''date'', [])]) []))
   = [(''2025-06-15'', \<lparr>data = ''<html>reading</html>'', timestamp = 1750000000000,
                         date = ''2025-06-15''\<rparr>)] \<and>
   snd (snd (serve_fetch
     (example_env (Responded \<lparr>res_status = 200, res_statusText = ''OK'',
                               res_text = ''<html>reading</html>''\<rparr>))
     (clock_at 1750000000000)
     (example_request ''GET'' ''/reading'' [(''date'', [])]) []))
   = [(''https://api.nlt.to/api/reading'',
       [(''plan'', ''oycb''), (''date'', ''2025-06-15''), (''key'', ''secret'')])]"
proof -
  let ?e = "example_env (Responded \<lparr>res_status = 200, res_statusText = ''OK'',
                               res_text = ''<html>reading</html>''\<rparr>)"
  let ?clk = "clock_at 1750000000000"
  let ?req = "example_request ''GET'' ''/reading'' [(''date'', [])]"
  have a1: "Map_get (searchParams ?req) ''date'' = Some []"
    by (simp add: example_request_def Map_get_def)
  have a2: "Map_get [] ''date'' = (None :: string option)"
    by (simp add: Map_get_def)
  have r: "?req\<lparr>searchParams := []\<rparr> = example_request ''GET'' ''/reading'' []"
    by (simp add: example_request_def)
  have tm: "today_ms ?clk = 1750000000000" by (simp add: clock_at_def)
  have rng: "- 62167219200000 \<le> today_ms ?clk \<and> today_ms ?clk < 253402300800000"
    by (simp add: tm)
  note t = empty_date_is_today [OF a1 a2, of ?clk ?e "[]"]
  note t1 = t [THEN conjunct1]
  note t3 = t [THEN conjunct2, THEN conjunct2, THEN conjunct1]
  note t5 = t [THEN conjunct2, THEN conjunct2, THEN conjunct2, THEN conjunct2, THEN conjunct1]
  have d: "request_date ?clk ?req = ''2025-06-15''"
    using t1 by (simp only: tm getTodayDate_date_string date_string_example)
  have f: "is_YYYY_MM_DD (request_date ?clk ?req)"
    using t5 rng by (rule mp)
  have s: "serve_fetch ?e ?clk ?req []
             = serve_fetch ?e ?clk (example_request ''GET'' ''/reading'' []) []"
    using t3 by (simp only: r)
  have g: "getCachedReading (get_ms ?clk) ''2025-06-15'' [] = (None, [])"
    by (simp add: getCachedReading_def Let_def Map_get_def)
  have u: "reading_url ?e ''2025-06-15''
     = (''https://api.nlt.to/api/reading'',
       [(''plan'', ''oycb''), (''date'', ''2025-06-15''), (''key'', ''secret'')])"
    by (simp add: reading_url_def example_env_def)
  have h: "fetchReading ?e ''2025-06-15''
     = ([(''https://api.nlt.to/api/reading'',
       [(''plan'', ''oycb''), (''date'', ''2025-06-15''), (''key'', ''secret'')])],
        Inr ''<html>reading</html>'')"
    unfolding fetchReading_def Let_def u
    by (simp add: example_env_def upstream_always_def res_ok_def)
  have w: "setCachedReading (set_ms ?clk) ''2025-06-15'' ''<html>reading</html>'' []
      = [(''2025-06-15'', \<lparr>data = ''<html>reading</html>'', timestamp = 1750000000000,
                         date = ''2025-06-15''\<rparr>)]"
    by (simp add: setCachedReading_def Let_def clock_at_def)
  have m: "req_method ?req \<noteq> ''OPTIONS''" "pathname ?req = ''/reading''"
    by (simp_all add: example_request_def)
  have v: "snd (serve_fetch ?e ?clk ?req []) =
     ([(''2025-06-15'', \<lparr>data = ''<html>reading</html>'', timestamp = 1750000000000,
                         date = ''2025-06-15''\<rparr>)],
      [(''https://api.nlt.to/api/reading'',
       [(''plan'', ''oycb''), (''date'', ''2025-06-15''), (''key'', ''secret'')])])"
    using m by (simp add: serve_fetch_def d reading_handler_def g h w)
  from a1 a2 d f s v show ?thesis by simp
qed

end
